theory Spec2Isabelle
  imports Main "HOL-Library.Char_ord" "HOL-Library.List_Lexorder"
begin

section \<open>Election results API: request resolution, filtering and paging\<close>

text \<open>
  A shallow embedding of \<^verbatim>\<open>api/views.py\<close> and of the tables of \<^verbatim>\<open>api/models.py\<close>.
  Every view is a function from its path segments, the request and the database to
  \<open>error + response\<close>; a raised exception is the \<open>Inl\<close> branch.
\<close>

subsection \<open>Python built-ins used by the views\<close>

text \<open>
  Strings are \<open>char list\<close>s of 8-bit characters, read as the code points below 256.
  \<open>lower\<close> is \<^verbatim>\<open>lower()\<close> on the ASCII letters, the only ones in the names the validators
  compare with; \<open>py_str\<close> is \<^verbatim>\<open>str\<close> on an integer; \<open>py_int\<close> is \<^verbatim>\<open>int\<close> on a string in
  base ten: surrounding whitespace (\<open>is_space\<close>, the whitespace of Python among these
  code points) is stripped, one sign is allowed, at least one decimal digit must follow
  and nothing else. \<open>None\<close> stands for \<^verbatim>\<open>ValueError\<close>.
\<close>

definition lower_char :: "char \<Rightarrow> char" where
  "lower_char c =
     (if 65 \<le> (of_char c :: nat) \<and> (of_char c :: nat) \<le> 90
      then char_of ((of_char c :: nat) + 32) else c)"

definition lower :: "string \<Rightarrow> string" where
  "lower s = map lower_char s"

definition is_space :: "char \<Rightarrow> bool" where
  "is_space c =
     ((of_char c :: nat) = 32 \<or> (9 \<le> (of_char c :: nat) \<and> (of_char c :: nat) \<le> 13) \<or>
      (28 \<le> (of_char c :: nat) \<and> (of_char c :: nat) \<le> 31) \<or>
      (of_char c :: nat) = 133 \<or> (of_char c :: nat) = 160)"

definition is_digit :: "char \<Rightarrow> bool" where
  "is_digit c = (48 \<le> (of_char c :: nat) \<and> (of_char c :: nat) \<le> 57)"

definition digit_val :: "char \<Rightarrow> nat" where
  "digit_val c = (of_char c :: nat) - 48"

definition digit_char :: "nat \<Rightarrow> char" where
  "digit_char d = char_of (48 + d)"

definition strip :: "string \<Rightarrow> string" where
  "strip s = rev (dropWhile is_space (rev (dropWhile is_space s)))"

definition parse_digits :: "string \<Rightarrow> nat option" where
  "parse_digits s =
     (if s = [] \<or> \<not> list_all is_digit s then None
      else Some (foldl (\<lambda>a c. 10 * a + digit_val c) 0 s))"

definition py_int :: "string \<Rightarrow> int option" where
  "py_int s =
     (case strip s of
        [] \<Rightarrow> None
      | c # r \<Rightarrow>
          if c = CHR ''-'' then map_option (\<lambda>n. - int n) (parse_digits r)
          else if c = CHR ''+'' then map_option int (parse_digits r)
          else map_option int (parse_digits (c # r)))"

function str_nat :: "nat \<Rightarrow> string" where
  "str_nat n = (if n < 10 then [digit_char n] else str_nat (n div 10) @ [digit_char (n mod 10)])"
  by pat_completeness auto
termination
  by (relation "measure (\<lambda>n. n)") auto

declare str_nat.simps [simp del]

definition py_str :: "int \<Rightarrow> string" where
  "py_str i = (if i < 0 then CHR ''-'' # str_nat (nat (- i)) else str_nat (nat i))"

text \<open>\<^verbatim>\<open>sep.join(xs)\<close>.\<close>

fun join :: "string \<Rightarrow> string list \<Rightarrow> string" where
  "join sep [] = []"
| "join sep [x] = x"
| "join sep (x # y # ys) = x @ sep @ join sep (y # ys)"

text \<open>\<^verbatim>\<open>xs.index(x)\<close>: the first position of \<open>x\<close>; \<open>None\<close> stands for \<^verbatim>\<open>ValueError\<close>.\<close>

fun index :: "'a list \<Rightarrow> 'a \<Rightarrow> nat option" where
  "index [] x = None"
| "index (y # ys) x = (if y = x then Some 0 else map_option Suc (index ys x))"

text \<open>
  Truthiness of an optional string (\<^verbatim>\<open>request.args.get(k)\<close>, an optional path segment):
  present and not empty. Where the views go on to use the value, the model splits the same
  test into its two cases, \<open>None\<close> and the empty string.
\<close>

definition truthy :: "string option \<Rightarrow> bool" where
  "truthy v = (case v of None \<Rightarrow> False | Some s \<Rightarrow> s \<noteq> [])"

subsection \<open>Errors and validators\<close>

text \<open>
  \<open>ApiException code message\<close> is the exception class of the views, turned into a JSON body
  with that status by the error handler. \<open>Unhandled name\<close> is any other exception
  (\<^verbatim>\<open>KeyError\<close>, \<^verbatim>\<open>ValueError\<close>, a failure of a collaborator), which no handler catches.
\<close>

datatype error = ApiException int string | Unhandled string

text \<open>Sequencing: the first exception raised ends the view.\<close>

definition and_then :: "error + 'a \<Rightarrow> ('a \<Rightarrow> error + 'b) \<Rightarrow> error + 'b" where
  "and_then m f = (case m of Inl e \<Rightarrow> Inl e | Inr x \<Rightarrow> f x)"

definition event_types :: "string list" where
  "event_types = [''provincial'', ''national'']"

definition years :: "int list" where
  "years = [1999, 2004, 2009]"

definition areas :: "string list" where
  "areas = [''province'', ''municipality'', ''ward'', ''voting_district'']"

definition validate_event_type :: "string \<Rightarrow> error + string" where
  "validate_event_type event_type =
     (let event_type = lower event_type;
          tmp = join '', '' event_types
      in if event_type \<notin> set event_types
         then Inl (ApiException 422
                (''Incorrect event_type specified. Please use one of: '' @ tmp @ ''.''))
         else Inr event_type)"

definition validate_year :: "string \<Rightarrow> error + int" where
  "validate_year y =
     (let tmp = join '', '' (map py_str years)
      in case py_int y of
           None \<Rightarrow> Inl (ApiException 422
                     (''Incorrect year specified. Please use one of: '' @ tmp @ ''.''))
         | Some n \<Rightarrow>
             if n \<notin> set years
             then Inl (ApiException 422
                    (''Incorrect year specified. Please use one of: '' @ tmp @ ''.''))
             else Inr n)"

definition validate_area :: "string \<Rightarrow> error + string" where
  "validate_area area =
     (let area = lower area;
          tmp = join '', '' areas
      in if area \<notin> set areas
         then Inl (ApiException 422
                (''Incorrect area specified. Please use one of: '' @ tmp @ ''.''))
         else Inr area)"

subsection \<open>Tables\<close>

text \<open>
  The four area tables of \<^verbatim>\<open>models.py\<close> have the same columns up to the name and type of
  the natural identifier and the parent references they carry, and the views reach them
  only through the dictionary \<^verbatim>\<open>models\<close>, never by class. One record stands for a row of
  any of them: \<open>ident\<close> is the column \<^verbatim>\<open>province_id\<close>, \<^verbatim>\<open>municipality_id\<close> (both
  \<^verbatim>\<open>String\<close>), \<^verbatim>\<open>ward_id\<close> or \<^verbatim>\<open>voting_district_id\<close> (both \<^verbatim>\<open>Integer\<close>); a parent
  reference the table does not have is \<open>None\<close>, as is a null one. A table is the list of
  its rows in the order the database returns them for a query without \<^verbatim>\<open>ORDER BY\<close>. The
  database also carries what its engine decides: \<open>integer_eq\<close>, see \<open>ident_matches\<close>.
\<close>

datatype ident = StrId string | IntId int

instantiation ident :: linorder
begin

fun less_eq_ident :: "ident \<Rightarrow> ident \<Rightarrow> bool" where
  "less_eq_ident (StrId a) (StrId b) = (a \<le> b)"
| "less_eq_ident (StrId a) (IntId b) = True"
| "less_eq_ident (IntId a) (StrId b) = False"
| "less_eq_ident (IntId a) (IntId b) = (a \<le> b)"

definition less_ident :: "ident \<Rightarrow> ident \<Rightarrow> bool" where
  "less_ident x y = (x \<le> y \<and> \<not> y \<le> x)"

instance
proof
  fix x y z :: ident
  show "(x < y) = (x \<le> y \<and> \<not> y \<le> x)"
    by (simp add: less_ident_def)
  show "x \<le> x"
    by (cases x) simp_all
  show "x \<le> y \<Longrightarrow> y \<le> z \<Longrightarrow> x \<le> z"
    by (cases x; cases y; cases z) auto
  show "x \<le> y \<Longrightarrow> y \<le> x \<Longrightarrow> x = y"
    by (cases x; cases y) auto
  show "x \<le> y \<or> y \<le> x"
    by (cases x; cases y) auto
qed

end

record row =
  pk :: int
  ident :: ident
  year :: int
  results_provincial :: "string option"
  results_national :: "string option"
  vote_complete :: "bool option"
  ward_pk :: "int option"
  municipality_pk :: "int option"
  province_pk :: "int option"

record database =
  provinces :: "row list"
  municipalities :: "row list"
  wards :: "row list"
  voting_districts :: "row list"
  country :: "row list"
  integer_eq :: "int \<Rightarrow> string \<Rightarrow> bool"

text \<open>
  \<^verbatim>\<open>column == value\<close> with the value a string of the URL, which the views hand to the
  database as it is. On a \<^verbatim>\<open>String\<close> column this is equality of strings. On an
  \<^verbatim>\<open>Integer\<close> column the database coerces the text its own way, which the repository
  does not fix: that comparison is the field \<open>integer_eq\<close> of the database.
\<close>

fun ident_matches :: "(int \<Rightarrow> string \<Rightarrow> bool) \<Rightarrow> ident \<Rightarrow> string \<Rightarrow> bool" where
  "ident_matches int_eq (StrId s) v = (s = v)"
| "ident_matches int_eq (IntId i) v = int_eq i v"

text \<open>\<^verbatim>\<open>.first()\<close>: the first row of the query, or \<^verbatim>\<open>None\<close>.\<close>

definition first :: "'a list \<Rightarrow> 'a option" where
  "first xs = (case xs of [] \<Rightarrow> None | x # _ \<Rightarrow> Some x)"

text \<open>
  \<^verbatim>\<open>.limit(l).offset(o)\<close>. For \<open>0 \<le> l\<close> and \<open>0 \<le> o\<close> this is SQL's; below zero the
  engines differ, and the model takes SQLite's reading: a negative limit is no limit, a
  negative offset is offset zero.
\<close>

definition limit_offset :: "int \<Rightarrow> int \<Rightarrow> 'a list \<Rightarrow> 'a list" where
  "limit_offset l ofs xs =
     (let ys = drop (nat ofs) xs in if l < 0 then ys else take (nat l) ys)"

text \<open>\<^verbatim>\<open>d[k]\<close> on a dictionary.\<close>

definition getitem :: "('k \<Rightarrow> 'v option) \<Rightarrow> 'k \<Rightarrow> error + 'v" where
  "getitem d k = (case d k of None \<Rightarrow> Inl (Unhandled ''KeyError'') | Some v \<Rightarrow> Inr v)"

text \<open>
  The dictionary \<^verbatim>\<open>models\<close>: the table of each area (its second component, the natural
  identifier column, is the field \<open>ident\<close>). The dictionary \<^verbatim>\<open>model_filters\<close>: for an area
  and a filter area, the relationship compared with the filter entity; comparing a
  relationship with an object compares the foreign key with the object's primary key.
\<close>

definition models :: "database \<Rightarrow> string \<Rightarrow> row list option" where
  "models db =
     [''province'' \<mapsto> provinces db,
      ''municipality'' \<mapsto> municipalities db,
      ''ward'' \<mapsto> wards db,
      ''voting_district'' \<mapsto> voting_districts db]"

definition model_filters :: "string \<Rightarrow> (string \<Rightarrow> (row \<Rightarrow> int option) option) option" where
  "model_filters =
     [''municipality'' \<mapsto> [''province'' \<mapsto> province_pk],
      ''ward'' \<mapsto> [''province'' \<mapsto> province_pk, ''municipality'' \<mapsto> municipality_pk],
      ''voting_district'' \<mapsto>
         [''province'' \<mapsto> province_pk, ''municipality'' \<mapsto> municipality_pk, ''ward'' \<mapsto> ward_pk]]"

subsection \<open>Requests and responses\<close>

text \<open>
  Of the Flask request the views read \<^verbatim>\<open>url_root\<close> and \<^verbatim>\<open>args\<close>; \<^verbatim>\<open>args.get(k)\<close> is the
  first value of the key. \<^verbatim>\<open>serialize_area\<close> belongs to a module that is not part of the
  development: it is a parameter, a function from an optional row and the event type to
  a JSON object with opaque values, which may raise.
\<close>

record request =
  url_root :: string
  args :: "(string \<times> string) list"

definition args_get :: "request \<Rightarrow> string \<Rightarrow> string option" where
  "args_get req k = map_of (args req) k"

type_synonym 'v area_record = "(string \<times> 'v) list"

type_synonym 'v serializer = "row option \<Rightarrow> string \<Rightarrow> error + 'v area_record"

datatype 'v overview_entry = Results 'v | Link string

datatype 'v response =
    Bare "'v area_record"
  | Envelope int "string option" "'v area_record list"

subsection \<open>The view \<^verbatim>\<open>results_overall\<close>\<close>

text \<open>
  The response is the dictionary \<^verbatim>\<open>out\<close>: the key \<^verbatim>\<open>results\<close>, then one key per area of
  the loop over \<^verbatim>\<open>areas\<close>.
\<close>

definition area_links ::
  "string \<Rightarrow> string \<Rightarrow> int \<Rightarrow> (string \<Rightarrow> 'v overview_entry option) \<Rightarrow> string \<Rightarrow> 'v overview_entry option" where
  "area_links root event_type y out0 =
     fold (\<lambda>area out.
             if area \<noteq> ''ward'' \<or> y \<ge> 2009
             then out(area \<mapsto> Link (root @ event_type @ ''/'' @ py_str y @ ''/'' @ area @ ''/''))
             else out)
          areas out0"

definition results_overall ::
  "'v serializer \<Rightarrow> database \<Rightarrow> request \<Rightarrow> string \<Rightarrow> string
     \<Rightarrow> error + (string \<Rightarrow> 'v overview_entry option)" where
  "results_overall serialize_area db req event_type y =
     and_then (validate_event_type event_type) (\<lambda>event_type.
     and_then (validate_year y) (\<lambda>y.
     let item = first (filter (\<lambda>r. year r = y) (country db)) in
     and_then (serialize_area item event_type) (\<lambda>rec.
     and_then (getitem (map_of rec) ''results'') (\<lambda>res.
       Inr (area_links (url_root req) event_type y (Map.empty(''results'' \<mapsto> Results res)))))))"

subsection \<open>The view \<^verbatim>\<open>results_by_area\<close>\<close>

text \<open>
  The filter parameters: the loop over \<^verbatim>\<open>reversed(areas)\<close>, which stops at the first area
  whose query parameter is truthy, with a 422 when that area is not before the
  requested one in \<^verbatim>\<open>areas\<close>.
\<close>

definition area_index :: "string \<Rightarrow> error + nat" where
  "area_index a = (case index areas a of None \<Rightarrow> Inl (Unhandled ''ValueError'') | Some i \<Rightarrow> Inr i)"

fun scan_filter ::
  "request \<Rightarrow> string \<Rightarrow> string list \<Rightarrow> error + (string \<times> string) option" where
  "scan_filter req area [] = Inr None"
| "scan_filter req area (tmp_area # rest) =
     (case args_get req tmp_area of
        None \<Rightarrow> scan_filter req area rest
      | Some filter_id \<Rightarrow>
          if filter_id = [] then scan_filter req area rest
          else
            and_then (area_index tmp_area) (\<lambda>i.
            and_then (area_index area) (\<lambda>j.
              if i \<ge> j
              then Inl (ApiException 422
                     ''The specified filter parameter cannot be used in this query.'')
              else Inr (Some (tmp_area, filter_id)))))"

definition filter_params :: "request \<Rightarrow> string \<Rightarrow> error + (string \<times> string) option" where
  "filter_params req area = scan_filter req area (rev areas)"

text \<open>The paging parameters: defaults 0 and 50, each replaced by a truthy query parameter.\<close>

definition int_param :: "request \<Rightarrow> string \<Rightarrow> int \<Rightarrow> error + int" where
  "int_param req k dflt =
     (case args_get req k of
        None \<Rightarrow> Inr dflt
      | Some v \<Rightarrow>
          if v = [] then Inr dflt
          else
            (case py_int v of
               None \<Rightarrow> Inl (ApiException 422
                         (''Please specify a valid '' @ [CHR 0x27] @ k @ [CHR 0x27] @ ''.''))
             | Some n \<Rightarrow> Inr n))"

definition paging_params :: "request \<Rightarrow> error + (int \<times> int)" where
  "paging_params req =
     and_then (int_param req ''page'' 0) (\<lambda>page.
     and_then (int_param req ''per_page'' 50) (\<lambda>per_page.
       Inr (page, per_page)))"

definition all_results_param :: "request \<Rightarrow> bool" where
  "all_results_param req = truthy (args_get req ''all_results'')"

text \<open>The branch \<^verbatim>\<open>if area_id\<close>: the first row of the area's table whose identifier is \<^verbatim>\<open>area_id\<close>.\<close>

definition single_entity ::
  "'v serializer \<Rightarrow> database \<Rightarrow> string \<Rightarrow> string \<Rightarrow> string \<Rightarrow> error + 'v response" where
  "single_entity serialize_area db event_type area area_id =
     and_then (getitem (models db) area) (\<lambda>table.
     and_then (serialize_area (first (filter (\<lambda>r. ident_matches (integer_eq db) (ident r) area_id) table)) event_type)
       (\<lambda>out. Inr (Bare out)))"

text \<open>
  The rows that the collection branch counts and fetches from: with a filter, the filter
  entity \<^verbatim>\<open>obj\<close> is looked up first (404 when there is none) and the rows of the year
  whose parent reference is \<^verbatim>\<open>obj\<close> are kept; without one, the rows of the year.
\<close>

definition filter_entity :: "database \<Rightarrow> string \<Rightarrow> string \<Rightarrow> error + row" where
  "filter_entity db filter_area filter_id =
     and_then (getitem (models db) filter_area) (\<lambda>filter_table.
       case first (filter (\<lambda>r. ident_matches (integer_eq db) (ident r) filter_id) filter_table) of
         None \<Rightarrow> Inl (ApiException 404
           ''Could not find the specified filter. Check that you have provided a valid ID, or remove the filter.'')
       | Some obj \<Rightarrow> Inr obj)"

definition matching_rows ::
  "database \<Rightarrow> int \<Rightarrow> string \<Rightarrow> (string \<times> string) option \<Rightarrow> error + row list" where
  "matching_rows db y area flt =
     (case flt of
        Some (filter_area, filter_id) \<Rightarrow>
          and_then (filter_entity db filter_area filter_id) (\<lambda>obj.
          and_then (getitem (models db) area) (\<lambda>table.
          and_then (getitem model_filters area) (\<lambda>by_area.
          and_then (getitem by_area filter_area) (\<lambda>parent.
            Inr (filter (\<lambda>r. parent r = Some (pk obj)) (filter (\<lambda>r. year r = y) table))))))
      | None \<Rightarrow>
          and_then (getitem (models db) area) (\<lambda>table.
            Inr (filter (\<lambda>r. year r = y) table)))"

text \<open>
  \<^verbatim>\<open>.order_by(id column)\<close>, then \<^verbatim>\<open>.all()\<close> or \<^verbatim>\<open>.limit(per_page).offset(page*per_page).all()\<close>.
  Rows with equal identifiers keep their table order.
\<close>

definition fetch :: "bool \<Rightarrow> int \<Rightarrow> int \<Rightarrow> row list \<Rightarrow> row list" where
  "fetch all_results page per_page rows =
     (if all_results then sort_key ident rows
      else limit_offset per_page (page * per_page) (sort_key ident rows))"

fun serialize_all :: "'v serializer \<Rightarrow> string \<Rightarrow> row list \<Rightarrow> error + 'v area_record list" where
  "serialize_all serialize_area event_type [] = Inr []"
| "serialize_all serialize_area event_type (item # items) =
     and_then (serialize_area (Some item) event_type) (\<lambda>r.
     and_then (serialize_all serialize_area event_type items) (\<lambda>rs.
       Inr (r # rs)))"

definition next_link :: "string \<Rightarrow> string \<Rightarrow> int \<Rightarrow> string \<Rightarrow> int \<Rightarrow> string" where
  "next_link root event_type y area page =
     root @ event_type @ ''/'' @ py_str y @ ''/'' @ area @ ''/?page='' @ py_str (page + 1)"

definition collection ::
  "'v serializer \<Rightarrow> database \<Rightarrow> request \<Rightarrow> string \<Rightarrow> int \<Rightarrow> string
     \<Rightarrow> (string \<times> string) option \<Rightarrow> int \<Rightarrow> int \<Rightarrow> bool \<Rightarrow> error + 'v response" where
  "collection serialize_area db req event_type y area flt page per_page all_results =
     and_then (matching_rows db y area flt) (\<lambda>rows.
     let count = int (length rows);
         items = fetch all_results page per_page rows;
         next = (if count > (page + 1) * per_page
                 then Some (next_link (url_root req) event_type y area page) else None)
     in and_then (serialize_all serialize_area event_type items) (\<lambda>results.
          if length results = 0 then Inl (ApiException 404 ''Not Found'')
          else Inr (Envelope count next results)))"

definition results_by_area ::
  "'v serializer \<Rightarrow> database \<Rightarrow> request \<Rightarrow> string \<Rightarrow> string \<Rightarrow> string \<Rightarrow> string option
     \<Rightarrow> error + 'v response" where
  "results_by_area serialize_area db req event_type y area area_id =
     and_then (validate_event_type event_type) (\<lambda>event_type.
     and_then (validate_year y) (\<lambda>y.
     and_then (validate_area area) (\<lambda>area.
     and_then (filter_params req area) (\<lambda>flt.
     and_then (paging_params req) (\<lambda>(page, per_page).
     let all_results = all_results_param req in
     (case area_id of
        None \<Rightarrow> collection serialize_area db req event_type y area flt page per_page all_results
      | Some i \<Rightarrow>
          if i = []
          then collection serialize_area db req event_type y area flt page per_page all_results
          else single_entity serialize_area db event_type area i))))))"

subsection \<open>Definitions used to state the properties\<close>

text \<open>
  The scan of the filter parameters as the specification words it: the position of an area
  in the order province, municipality, ward, voting district, and the first area, from the
  finest to the coarsest, whose query parameter is present with a non-empty value.
\<close>

definition position :: "string \<Rightarrow> nat" where
  "position a = length (takeWhile (\<lambda>b. b \<noteq> a) [''province'', ''municipality'', ''ward'', ''voting_district''])"

definition spec_filter :: "request \<Rightarrow> string \<Rightarrow> error + (string \<times> string) option" where
  "spec_filter req A =
     (case find (\<lambda>F. truthy (args_get req F)) [''voting_district'', ''ward'', ''municipality'', ''province''] of
        None \<Rightarrow> Inr None
      | Some F \<Rightarrow>
          if position F < position A then Inr (map_option (Pair F) (args_get req F))
          else Inl (ApiException 422 ''The specified filter parameter cannot be used in this query.''))"






text \<open>
  Following a next link. A request to the area route is its Flask request and the three
  path segments; \<open>request_url\<close> is its URL. \<open>link_target\<close> is the request that the next
  link of the response to a request denotes: the validated path segments and the single
  query parameter \<^verbatim>\<open>page\<close>, one above the page of the request. \<open>crawl\<close> follows next links
  from a request until a response carries none and counts the requests made; it is
  given fuel, and \<open>None\<close> means that the fuel ran out.
\<close>

definition request_url :: "request \<times> string \<times> string \<times> string \<Rightarrow> string" where
  "request_url c =
     (case c of (req, et, y, a) \<Rightarrow>
        url_root req @ et @ ''/'' @ y @ ''/'' @ a @ ''/'' @
        (case args req of
           [] \<Rightarrow> []
         | q # qs \<Rightarrow> ''?'' @ join ''&'' (map (\<lambda>(k, v). k @ ''='' @ v) (q # qs))))"

definition next_request :: "request \<Rightarrow> int \<Rightarrow> request" where
  "next_request req page = \<lparr>url_root = url_root req, args = [(''page'', py_str (page + 1))]\<rparr>"

definition link_target ::
  "request \<Rightarrow> string \<Rightarrow> string \<Rightarrow> string \<Rightarrow> (request \<times> string \<times> string \<times> string) option" where
  "link_target req et y a =
     (case validate_event_type et of Inl e \<Rightarrow> None | Inr et' \<Rightarrow>
     (case validate_year y of Inl e \<Rightarrow> None | Inr y' \<Rightarrow>
     (case validate_area a of Inl e \<Rightarrow> None | Inr a' \<Rightarrow>
     (case paging_params req of Inl e \<Rightarrow> None | Inr (page, per_page) \<Rightarrow>
        Some (next_request req page, et', py_str y', a')))))"

definition has_next :: "error + 'v response \<Rightarrow> bool" where
  "has_next r =
     (case r of
        Inl e \<Rightarrow> False
      | Inr resp \<Rightarrow>
          (case resp of
             Bare out \<Rightarrow> False
           | Envelope c l rs \<Rightarrow> l \<noteq> None))"

fun crawl ::
  "nat \<Rightarrow> 'v serializer \<Rightarrow> database \<Rightarrow> request \<times> string \<times> string \<times> string \<Rightarrow> nat option" where
  "crawl 0 serialize_area db c = None"
| "crawl (Suc k) serialize_area db (req, et, y, a) =
     (if has_next (results_by_area serialize_area db req et y a None)
      then (case link_target req et y a of
              None \<Rightarrow> Some 1
            | Some c' \<Rightarrow> map_option Suc (crawl k serialize_area db c'))
      else Some 1)"

subsection \<open>Example data\<close>

text \<open>
  A small database for the concrete cases below. The province \<^verbatim>\<open>EC\<close> has a row for 1999
  and one for 2009, as the unique index on (year, identifier) allows; the municipality
  \<^verbatim>\<open>BUF\<close> of 2009 belongs to the 2009 row. \<open>ex_serialize\<close> stands in for
  \<^verbatim>\<open>serialize_area\<close>: it accepts any row and no row, and reports the primary key of what it
  was given. The example engine takes a text for an integer when it is the decimal
  writing of it.
\<close>

definition mk_row :: "int \<Rightarrow> ident \<Rightarrow> int \<Rightarrow> int option \<Rightarrow> row" where
  "mk_row k i y p =
     \<lparr>pk = k, ident = i, year = y, results_provincial = None, results_national = None,
      vote_complete = None, ward_pk = None, municipality_pk = None, province_pk = p\<rparr>"

definition ex_db :: database where
  "ex_db =
     \<lparr>provinces = [mk_row 1 (StrId ''EC'') 1999 None, mk_row 2 (StrId ''EC'') 2009 None,
                   mk_row 3 (StrId ''WC'') 2009 None],
      municipalities = [mk_row 10 (StrId ''BUF'') 2009 (Some 2)],
      wards = [],
      voting_districts = [],
      country = [mk_row 1 (StrId '''') 2004 None],
      integer_eq = (\<lambda>i v. v = py_str i)\<rparr>"

definition ex_serialize :: "int option serializer" where
  "ex_serialize item event_type = Inr [(''results'', map_option pk item)]"

definition ex_request :: "(string \<times> string) list \<Rightarrow> request" where
  "ex_request qs = \<lparr>url_root = ''http://localhost/'', args = qs\<rparr>"

text \<open>The same database with 51 wards for 2009, one more than the default page size.\<close>

definition ex_wards :: "row list" where
  "ex_wards = map (\<lambda>i. mk_row i (IntId i) 2009 None) [1..51]"

definition ex_big :: database where
  "ex_big = ex_db\<lparr>wards := ex_wards\<rparr>"


section \<open>Auxiliary facts\<close>

lemma and_then_Inr: "and_then (Inr x) f = f x"
  by (simp add: and_then_def)

lemma and_then_Inl: "and_then (Inl e) f = Inl e"
  by (simp add: and_then_def)

lemma is_digit_digit_char: "d < 10 \<Longrightarrow> is_digit (digit_char d)"
  by (simp add: is_digit_def digit_char_def)

lemma digit_val_digit_char: "d < 10 \<Longrightarrow> digit_val (digit_char d) = d"
  by (simp add: digit_val_def digit_char_def)

lemma is_digit_not_space: "is_digit c \<Longrightarrow> \<not> is_space c"
  by (auto simp: is_digit_def is_space_def)

lemma is_digit_not_sign: "is_digit c \<Longrightarrow> c \<noteq> CHR ''-'' \<and> c \<noteq> CHR ''+''"
  by (auto simp: is_digit_def)

lemma str_nat_digits: "list_all is_digit (str_nat n)"
proof (induction n rule: str_nat.induct)
  case (1 n)
  show ?case
  proof (cases "n < 10")
    case True
    then show ?thesis by (subst str_nat.simps) (simp add: is_digit_digit_char)
  next
    case False
    with 1 show ?thesis by (subst str_nat.simps) (simp add: is_digit_digit_char)
  qed
qed

lemma str_nat_nonempty: "str_nat n \<noteq> []"
  by (subst str_nat.simps) simp

lemma str_nat_value: "foldl (\<lambda>a c. 10 * a + digit_val c) 0 (str_nat n) = n"
proof (induction n rule: str_nat.induct)
  case (1 n)
  show ?case
  proof (cases "n < 10")
    case True
    then show ?thesis by (subst str_nat.simps) (simp add: digit_val_digit_char)
  next
    case False
    with 1 show ?thesis by (subst str_nat.simps) (simp add: digit_val_digit_char)
  qed
qed

lemma parse_digits_str_nat: "parse_digits (str_nat n) = Some n"
  by (simp add: parse_digits_def str_nat_digits str_nat_nonempty str_nat_value)

lemma strip_no_space_ends:
  assumes "s \<noteq> []" "\<not> is_space (hd s)" "\<not> is_space (last s)"
  shows "strip s = s"
proof -
  have a: "dropWhile is_space s = s"
    using assms by (simp add: dropWhile_eq_self_iff)
  have b: "dropWhile is_space (rev s) = rev s"
    using assms by (simp add: dropWhile_eq_self_iff hd_rev)
  show ?thesis by (simp add: strip_def a b)
qed

lemma str_nat_hd: "is_digit (hd (str_nat n))"
  using str_nat_digits [of n] str_nat_nonempty [of n]
  by (cases "str_nat n") simp_all

lemma str_nat_last: "is_digit (last (str_nat n))"
  using str_nat_digits [of n] str_nat_nonempty [of n]
  by (simp add: list_all_iff)

lemma py_int_py_str: "py_int (py_str i) = Some i"
proof (cases "i < 0")
  case True
  have m: "\<not> is_space (CHR ''-'')"
    by (simp add: is_space_def)
  have l: "\<not> is_space (last (str_nat (nat (- i))))"
    using str_nat_last [of "nat (- i)"] by (rule is_digit_not_space)
  have "strip (CHR ''-'' # str_nat (nat (- i))) = CHR ''-'' # str_nat (nat (- i))"
    using str_nat_nonempty [of "nat (- i)"] m l
    by (intro strip_no_space_ends) simp_all
  with True show ?thesis
    by (simp add: py_int_def py_str_def parse_digits_str_nat)
next
  case False
  have s: "strip (str_nat (nat i)) = str_nat (nat i)"
    using str_nat_hd [of "nat i"] str_nat_last [of "nat i"] str_nat_nonempty [of "nat i"]
    by (intro strip_no_space_ends) (simp_all add: is_digit_not_space)
  obtain c r where cr: "str_nat (nat i) = c # r"
    using str_nat_nonempty [of "nat i"] by (cases "str_nat (nat i)") auto
  have "is_digit c" using str_nat_hd [of "nat i"] cr by simp
  then have "c \<noteq> CHR ''-''" "c \<noteq> CHR ''+''" using is_digit_not_sign by auto
  moreover have "parse_digits (c # r) = Some (nat i)"
    using parse_digits_str_nat [of "nat i"] cr by simp
  ultimately show ?thesis using False s cr
    by (simp add: py_int_def py_str_def)
qed

lemma area_index_simps:
  "area_index ''province'' = Inr 0"
  "area_index ''municipality'' = Inr 1"
  "area_index ''ward'' = Inr 2"
  "area_index ''voting_district'' = Inr 3"
  by (simp_all add: area_index_def areas_def)

lemma validate_area_in: "validate_area a = Inr a' \<Longrightarrow> a' \<in> set areas"
  by (auto simp: validate_area_def Let_def split: if_splits)

lemma lower_areas: "a \<in> set areas \<Longrightarrow> lower a = a"
  by (auto simp: areas_def lower_def lower_char_def)

lemma validate_area_idem: "validate_area a = Inr a' \<Longrightarrow> validate_area a' = Inr a'"
  using lower_areas [of a'] by (auto simp: validate_area_def Let_def split: if_splits)

lemma validate_event_type_in: "validate_event_type e = Inr e' \<Longrightarrow> e' \<in> set event_types"
  by (auto simp: validate_event_type_def Let_def split: if_splits)

lemma lower_event_types: "a \<in> set event_types \<Longrightarrow> lower a = a"
  by (auto simp: event_types_def lower_def lower_char_def)

lemma validate_event_type_idem: "validate_event_type e = Inr e' \<Longrightarrow> validate_event_type e' = Inr e'"
  using lower_event_types [of e'] by (auto simp: validate_event_type_def Let_def split: if_splits)

lemma validate_year_in: "validate_year y = Inr n \<Longrightarrow> n \<in> set years"
  by (auto simp: validate_year_def Let_def split: if_splits option.splits)

lemma validate_year_py_str: "validate_year y = Inr n \<Longrightarrow> validate_year (py_str n) = Inr n"
  by (auto simp: validate_year_def Let_def py_int_py_str split: if_splits option.splits)

lemma area_index_position: "a \<in> set areas \<Longrightarrow> area_index a = Inr (position a)"
  by (auto simp: areas_def area_index_def position_def)

lemma scan_filter_find:
  assumes "A \<in> set areas"
  shows "set xs \<subseteq> set areas \<Longrightarrow>
         scan_filter req A xs =
           (case find (\<lambda>F. truthy (args_get req F)) xs of
              None \<Rightarrow> Inr None
            | Some F \<Rightarrow>
                if position F < position A then Inr (map_option (Pair F) (args_get req F))
                else Inl (ApiException 422 ''The specified filter parameter cannot be used in this query.''))"
proof (induction xs)
  case Nil
  show ?case by simp
next
  case (Cons x xs)
  then have x: "x \<in> set areas" and xs: "set xs \<subseteq> set areas" by simp_all
  show ?case
  proof (cases "args_get req x")
    case None
    with Cons.IH [OF xs] show ?thesis by (simp add: truthy_def)
  next
    case (Some v)
    show ?thesis
    proof (cases "v = []")
      case True
      with Some Cons.IH [OF xs] show ?thesis by (simp add: truthy_def)
    next
      case False
      with Some show ?thesis
        by (simp add: truthy_def area_index_position [OF x] area_index_position [OF assms]
            and_then_Inr not_less)
    qed
  qed
qed

lemma filter_params_spec: "A \<in> set areas \<Longrightarrow> filter_params req A = spec_filter req A"
  using scan_filter_find [of A "rev areas" req]
  by (simp add: filter_params_def spec_filter_def) (simp add: areas_def)

lemma results_by_area_collection:
  assumes "validate_event_type et = Inr et'" "validate_year y = Inr y'" "validate_area a = Inr a'"
    "filter_params req a' = Inr flt" "paging_params req = Inr (page, per_page)" "\<not> truthy area_id"
  shows "results_by_area ser db req et y a area_id =
           collection ser db req et' y' a' flt page per_page (all_results_param req)"
  using assms by (auto simp: results_by_area_def and_then_Inr truthy_def Let_def split: option.splits)

lemma single_entity_not_envelope: "single_entity ser db et a i \<noteq> Inr (Envelope c n rs)"
  by (auto simp: single_entity_def and_then_def split: sum.splits)

lemma results_by_area_envelopeD:
  assumes r: "results_by_area ser db req et y a area_id = Inr (Envelope c n rs)"
  obtains et' y' a' flt page per_page where
    "validate_event_type et = Inr et'" "validate_year y = Inr y'" "validate_area a = Inr a'"
    "filter_params req a' = Inr flt" "paging_params req = Inr (page, per_page)" "\<not> truthy area_id"
    "collection ser db req et' y' a' flt page per_page (all_results_param req) = Inr (Envelope c n rs)"
proof -
  obtain et' where e: "validate_event_type et = Inr et'"
    using r by (cases "validate_event_type et") (simp_all add: results_by_area_def and_then_Inl)
  obtain y' where yy: "validate_year y = Inr y'"
    using r e by (cases "validate_year y") (simp_all add: results_by_area_def and_then_Inl and_then_Inr)
  obtain a' where aa: "validate_area a = Inr a'"
    using r e yy by (cases "validate_area a") (simp_all add: results_by_area_def and_then_Inl and_then_Inr)
  obtain flt where f: "filter_params req a' = Inr flt"
    using r e yy aa
    by (cases "filter_params req a'") (simp_all add: results_by_area_def and_then_Inl and_then_Inr)
  obtain pg where p: "paging_params req = Inr pg"
    using r e yy aa f
    by (cases "paging_params req") (simp_all add: results_by_area_def and_then_Inl and_then_Inr)
  obtain page per_page where pg: "pg = (page, per_page)" by (cases pg)
  have body: "(case area_id of
        None \<Rightarrow> collection ser db req et' y' a' flt page per_page (all_results_param req)
      | Some i \<Rightarrow>
          if i = []
          then collection ser db req et' y' a' flt page per_page (all_results_param req)
          else single_entity ser db et' a' i) = Inr (Envelope c n rs)"
    using r e yy aa f p pg by (simp add: results_by_area_def and_then_Inr Let_def)
  have nt: "\<not> truthy area_id"
  proof (cases area_id)
    case None
    then show ?thesis by (simp add: truthy_def)
  next
    case (Some i)
    with body single_entity_not_envelope [of ser db et' a' i c n rs] show ?thesis
      by (cases "i = []") (simp_all add: truthy_def)
  qed
  have col: "collection ser db req et' y' a' flt page per_page (all_results_param req) = Inr (Envelope c n rs)"
  proof (cases area_id)
    case None
    with body show ?thesis by simp
  next
    case (Some i)
    with nt have "i = []" by (simp add: truthy_def)
    with body Some show ?thesis by simp
  qed
  from e yy aa f p pg nt col show thesis
    by (intro that) simp_all
qed

lemma collection_envelopeD:
  assumes r: "collection ser db req et y a flt page per_page allr = Inr (Envelope c n rs)"
  obtains rows where "matching_rows db y a flt = Inr rows" "c = int (length rows)"
    "n = (if c > (page + 1) * per_page then Some (next_link (url_root req) et y a page) else None)"
    "serialize_all ser et (fetch allr page per_page rows) = Inr rs" "rs \<noteq> []"
proof -
  obtain rows where m: "matching_rows db y a flt = Inr rows"
    using r by (cases "matching_rows db y a flt") (simp_all add: collection_def and_then_Inl)
  obtain rs' where s: "serialize_all ser et (fetch allr page per_page rows) = Inr rs'"
    using r m
    by (cases "serialize_all ser et (fetch allr page per_page rows)")
       (simp_all add: collection_def and_then_Inl and_then_Inr Let_def)
  from r m s have "rs' \<noteq> []" "rs = rs'" "c = int (length rows)"
    "n = (if c > (page + 1) * per_page then Some (next_link (url_root req) et y a page) else None)"
    by (simp_all add: collection_def and_then_Inr Let_def split: if_splits)
  with m s show thesis by (intro that) simp_all
qed

lemma results_by_area_filter_error:
  assumes "validate_event_type et = Inr et'" "validate_year y = Inr y'" "validate_area a = Inr a'"
    "filter_params req a' = Inl e"
  shows "results_by_area ser db req et y a area_id = Inl e"
  using assms by (simp add: results_by_area_def and_then_Inr and_then_Inl)

lemma area_links_apply:
  "area_links root et n out0 =
     (if n \<ge> 2009
      then out0(''province'' \<mapsto> Link (root @ et @ ''/'' @ py_str n @ ''/'' @ ''province'' @ ''/''),
                ''municipality'' \<mapsto> Link (root @ et @ ''/'' @ py_str n @ ''/'' @ ''municipality'' @ ''/''),
                ''ward'' \<mapsto> Link (root @ et @ ''/'' @ py_str n @ ''/'' @ ''ward'' @ ''/''),
                ''voting_district'' \<mapsto> Link (root @ et @ ''/'' @ py_str n @ ''/'' @ ''voting_district'' @ ''/''))
      else out0(''province'' \<mapsto> Link (root @ et @ ''/'' @ py_str n @ ''/'' @ ''province'' @ ''/''),
                ''municipality'' \<mapsto> Link (root @ et @ ''/'' @ py_str n @ ''/'' @ ''municipality'' @ ''/''),
                ''voting_district'' \<mapsto> Link (root @ et @ ''/'' @ py_str n @ ''/'' @ ''voting_district'' @ ''/'')))"
  by (simp add: area_links_def areas_def)

lemma results_overall_InrD:
  assumes "validate_event_type et = Inr et'" "validate_year y = Inr n"
    "results_overall ser db req et y = Inr out"
  obtains res where "out = area_links (url_root req) et' n (Map.empty(''results'' \<mapsto> Results res))"
proof -
  let ?item = "first (filter (\<lambda>r. year r = n) (country db))"
  obtain rec where s: "ser ?item et' = Inr rec"
    using assms by (cases "ser ?item et'") (simp_all add: results_overall_def and_then_Inr and_then_Inl)
  obtain res where g: "getitem (map_of rec) ''results'' = Inr res"
    using assms s
    by (cases "getitem (map_of rec) ''results''")
       (simp_all add: results_overall_def and_then_Inr and_then_Inl)
  from assms s g have "out = area_links (url_root req) et' n (Map.empty(''results'' \<mapsto> Results res))"
    by (simp add: results_overall_def and_then_Inr)
  then show thesis by (rule that)
qed


subsection \<open>Evaluation on concrete requests\<close>

lemma py_str_values:
  "py_str 0 = ''0''" "py_str 1 = ''1''" "py_str 2 = ''2''" "py_str 3 = ''3''"
  "py_str 1999 = ''1999''" "py_str 2004 = ''2004''" "py_str 2009 = ''2009''"
  by code_simp+

lemmas eval_defs = results_by_area_def and_then_Inr and_then_Inl filter_params_def areas_def
  args_get_def ex_request_def paging_params_def int_param_def all_results_param_def truthy_def
  collection_def matching_rows_def filter_entity_def getitem_def models_def model_filters_def
  ex_db_def mk_row_def fetch_def limit_offset_def next_link_def first_def ex_serialize_def
  single_entity_def area_index_simps Let_def validate_event_type_def validate_year_def
  validate_area_def event_types_def years_def lower_def lower_char_def py_int_def strip_def
  is_space_def parse_digits_def is_digit_def digit_val_def spec_filter_def position_def
  py_str_values

lemma py_str_nonempty: "py_str n \<noteq> []"
  by (simp add: py_str_def str_nat_nonempty)

lemma int_param_py_str: "args_get req k = Some (py_str n) \<Longrightarrow> int_param req k d = Inr n"
  by (simp add: int_param_def py_str_nonempty py_int_py_str)

lemma paging_params_py_str:
  "args_get req ''page'' = Some (py_str n) \<Longrightarrow> args_get req ''per_page'' = Some (py_str m)
     \<Longrightarrow> paging_params req = Inr (n, m)"
  by (simp add: paging_params_def int_param_py_str and_then_Inr)

lemma getitem_InrD: "getitem d k = Inr v \<Longrightarrow> d k = Some v"
  by (cases "d k") (simp_all add: getitem_def)

lemma matching_rows_length_le:
  assumes "matching_rows db y a flt = Inr rows"
  shows "\<exists>table. models db a = Some table \<and>
           length rows \<le> length (filter (\<lambda>r. year r = y) table)"
proof (cases flt)
  case None
  with assms obtain table where t: "getitem (models db) a = Inr table"
    by (cases "getitem (models db) a") (simp_all add: matching_rows_def and_then_Inl)
  with assms None have "rows = filter (\<lambda>r. year r = y) table"
    by (simp add: matching_rows_def and_then_Inr)
  with getitem_InrD [OF t] show ?thesis by simp
next
  case (Some p)
  obtain fa fid where p: "p = (fa, fid)" by (cases p)
  from assms Some p obtain obj where o: "filter_entity db fa fid = Inr obj"
    by (cases "filter_entity db fa fid") (simp_all add: matching_rows_def and_then_Inl)
  from assms Some p o obtain table where t: "getitem (models db) a = Inr table"
    by (cases "getitem (models db) a") (simp_all add: matching_rows_def and_then_Inl and_then_Inr)
  from assms Some p o t obtain by_area where b: "getitem model_filters a = Inr by_area"
    by (cases "getitem model_filters a") (simp_all add: matching_rows_def and_then_Inl and_then_Inr)
  from assms Some p o t b obtain parent where q: "getitem by_area fa = Inr parent"
    by (cases "getitem by_area fa") (simp_all add: matching_rows_def and_then_Inl and_then_Inr)
  from assms Some p o t b q
  have "rows = filter (\<lambda>r. parent r = Some (pk obj)) (filter (\<lambda>r. year r = y) table)"
    by (simp add: matching_rows_def and_then_Inr)
  then have "length rows \<le> length (filter (\<lambda>r. year r = y) table)"
    by (simp only: length_filter_le)
  with getitem_InrD [OF t] show ?thesis by blast
qed




subsection \<open>Requests that carry only a page number\<close>

lemma has_nextD:
  assumes "has_next r"
  obtains c l rs where "r = Inr (Envelope c (Some l) rs)"
proof (cases r)
  case (Inl e)
  with assms show ?thesis by (simp add: has_next_def)
next
  case (Inr resp)
  show ?thesis
  proof (cases resp)
    case (Bare out)
    with assms Inr show ?thesis by (simp add: has_next_def)
  next
    case (Envelope c l rs)
    with assms Inr obtain u where "l = Some u" by (auto simp: has_next_def)
    with Inr Envelope show ?thesis by (intro that) simp
  qed
qed

lemma page_only_filter: "filter_params \<lparr>url_root = root, args = [(''page'', s)]\<rparr> a = Inr None"
  by (simp add: filter_params_def areas_def args_get_def)

lemma page_only_paging:
  "paging_params \<lparr>url_root = root, args = [(''page'', py_str p)]\<rparr> = Inr (p, 50)"
  by (simp add: paging_params_def int_param_def args_get_def py_str_nonempty py_int_py_str and_then_Inr)

lemma page_only_all_results: "\<not> all_results_param \<lparr>url_root = root, args = [(''page'', s)]\<rparr>"
  by (simp add: all_results_param_def args_get_def truthy_def)

lemma matching_rows_unfiltered:
  "models db a = Some table \<Longrightarrow> matching_rows db y a None = Inr (filter (\<lambda>r. year r = y) table)"
  by (simp add: matching_rows_def getitem_def and_then_Inr)

lemma serialize_all_total:
  assumes "\<forall>r. \<exists>rec. ser (Some r) et = Inr rec"
  shows "\<exists>rs. serialize_all ser et items = Inr rs \<and> length rs = length items"
proof (induction items)
  case Nil
  show ?case by simp
next
  case (Cons item items)
  from assms obtain rec where "ser (Some item) et = Inr rec" by blast
  with Cons show ?case by (auto simp: and_then_Inr)
qed

lemma page_only_request:
  assumes "validate_event_type et = Inr et" "validate_year ys = Inr y" "validate_area a = Inr a"
  shows "results_by_area ser db \<lparr>url_root = root, args = [(''page'', py_str p)]\<rparr> et ys a None =
           collection ser db \<lparr>url_root = root, args = [(''page'', py_str p)]\<rparr> et y a None p 50 False"
  using results_by_area_collection [OF assms page_only_filter page_only_paging, of None ser db root p]
  by (simp add: truthy_def page_only_all_results)

lemma page_only_nonempty:
  assumes e: "validate_event_type et = Inr et" and yv: "validate_year ys = Inr y"
    and av: "validate_area a = Inr a" and t: "models db a = Some table"
    and big: "p * 50 < int (length (filter (\<lambda>r. year r = y) table))" and p0: "0 \<le> p"
    and tot: "\<forall>r. \<exists>rec. ser (Some r) et = Inr rec"
  shows "\<exists>c n rs. results_by_area ser db \<lparr>url_root = root, args = [(''page'', py_str p)]\<rparr> et ys a None
           = Inr (Envelope c n rs)"
proof -
  let ?rows = "filter (\<lambda>r. year r = y) table"
  let ?items = "fetch False p 50 ?rows"
  have items: "?items = take 50 (drop (nat (p * 50)) (sort_key ident ?rows))"
    by (simp add: fetch_def limit_offset_def)
  from big p0 have "nat (p * 50) < length (sort_key ident ?rows)" by simp
  then have ne: "?items \<noteq> []" unfolding items by simp
  from serialize_all_total [of ser et ?items] tot obtain rs where
    rs: "serialize_all ser et ?items = Inr rs" "length rs = length ?items" by blast
  with ne have "rs \<noteq> []" by auto
  with rs show ?thesis
    by (simp add: page_only_request [OF e yv av] collection_def matching_rows_unfiltered [OF t]
        and_then_Inr Let_def)
qed

lemma link_target_page_only:
  assumes "validate_event_type et = Inr et" "validate_year (py_str y) = Inr y" "validate_area a = Inr a"
  shows "link_target \<lparr>url_root = root, args = [(''page'', py_str p)]\<rparr> et (py_str y) a
           = Some (\<lparr>url_root = root, args = [(''page'', py_str (p + 1))]\<rparr>, et, py_str y, a)"
  using assms by (simp add: link_target_def page_only_paging next_request_def)

lemma crawl_page_only:
  assumes e: "validate_event_type et = Inr et" and yv: "validate_year (py_str y) = Inr y"
    and av: "validate_area a = Inr a" and t: "models db a = Some table"
  shows "nat (int (length (filter (\<lambda>r. year r = y) table)) - (p + 1) * 50) < k \<Longrightarrow>
         \<exists>n. crawl k ser db (\<lparr>url_root = root, args = [(''page'', py_str p)]\<rparr>, et, py_str y, a) = Some n"
proof (induction k arbitrary: p)
  case 0
  then show ?case by simp
next
  case (Suc k)
  let ?R = "\<lparr>url_root = root, args = [(''page'', py_str p)]\<rparr>"
  let ?N = "int (length (filter (\<lambda>r. year r = y) table))"
  show ?case
  proof (cases "has_next (results_by_area ser db ?R et (py_str y) a None)")
    case False
    then show ?thesis by simp
  next
    case True
    then obtain c l rs where
      r: "results_by_area ser db ?R et (py_str y) a None = Inr (Envelope c (Some l) rs)"
      by (rule has_nextD)
    then have "collection ser db ?R et y a None p 50 False = Inr (Envelope c (Some l) rs)"
      by (simp add: page_only_request [OF e yv av])
    then obtain rows where m: "matching_rows db y a None = Inr rows" and c: "c = int (length rows)"
      and l: "Some l = (if c > (p + 1) * 50 then Some (next_link (url_root ?R) et y a p) else None)"
      by (rule collection_envelopeD)
    from m have "rows = filter (\<lambda>r. year r = y) table"
      by (simp add: matching_rows_unfiltered [OF t])
    with c have cN: "c = ?N" by simp
    from l have "c > (p + 1) * 50" by (simp split: if_splits)
    with cN Suc.prems have "nat (?N - (p + 1 + 1) * 50) < k" by simp
    from Suc.IH [OF this] obtain n where
      "crawl k ser db (\<lparr>url_root = root, args = [(''page'', py_str (p + 1))]\<rparr>, et, py_str y, a) = Some n"
      by blast
    with True show ?thesis
      by (simp add: link_target_page_only [OF e yv av])
  qed
qed

lemma fetch_first_page_nonempty: "rows \<noteq> [] \<Longrightarrow> fetch False 0 50 rows \<noteq> []"
proof -
  assume "rows \<noteq> []"
  moreover have "length (fetch False 0 50 rows) = min (length rows) 50"
    by (simp add: fetch_def limit_offset_def)
  ultimately show ?thesis by (cases rows) auto
qed

lemma ex_serialize_total: "\<forall>r. \<exists>rec. ex_serialize (Some r) et = Inr rec"
  by (simp add: ex_serialize_def)

lemma ex_big_wards_2009: "matching_rows ex_big 2009 ''ward'' None = Inr ex_wards"
proof -
  have "models ex_big ''ward'' = Some ex_wards"
    by (simp add: models_def ex_big_def)
  moreover have "filter (\<lambda>r. year r = 2009) ex_wards = ex_wards"
    by (simp add: ex_wards_def mk_row_def filter_map comp_def)
  ultimately show ?thesis by (simp add: matching_rows_unfiltered)
qed

lemma ex_wards_length: "length ex_wards = 51"
  by (simp add: ex_wards_def)

subsection \<open>The rows of a collection and the matching rows\<close>






section \<open>Properties of the views\<close>

subsection \<open>Paging\<close>

text \<open>
  C5. In a collection response the next link is present exactly when
  \<open>count > (page + 1) * per_page\<close>. With 120 rows and a page size of 50 it is present
  on pages 0 and 1 and absent on page 2.
\<close>

theorem next_link_iff:
  assumes "paging_params req = Inr (page, per_page)"
    and "results_by_area ser db req et y a area_id = Inr (Envelope count nxt results)"
  shows "(nxt \<noteq> None) = (count > (page + 1) * per_page) \<and>
         (count = 120 \<and> per_page = 50 \<longrightarrow>
            (page = 0 \<or> page = 1 \<longrightarrow> nxt \<noteq> None) \<and> (page = 2 \<longrightarrow> nxt = None))"
proof -
  from assms(2) obtain et' y' a' flt p pp where
    pg: "paging_params req = Inr (p, pp)" and
    col: "collection ser db req et' y' a' flt p pp (all_results_param req) = Inr (Envelope count nxt results)"
    by (rule results_by_area_envelopeD)
  from pg assms(1) have p: "p = page" "pp = per_page" by simp_all
  from col obtain rows where
    "nxt = (if count > (p + 1) * pp then Some (next_link (url_root req) et' y' a' p) else None)"
    by (rule collection_envelopeD)
  then have iff: "(nxt \<noteq> None) = (count > (page + 1) * per_page)"
    by (simp add: p)
  have a: "nxt \<noteq> None" if "count = 120" "per_page = 50" "page = 0 \<or> page = 1"
    using that iff by auto
  have b: "nxt = None" if "count = 120" "per_page = 50" "page = 2"
    using that iff by simp
  from iff a b show ?thesis by blast
qed

theorem next_link_iff_witness:
  "paging_params (ex_request [(''per_page'', ''1'')]) = Inr (0, 1) \<and>
   results_by_area ex_serialize ex_db (ex_request [(''per_page'', ''1'')])
       ''national'' ''2009'' ''province'' None
     = Inr (Envelope 2 (Some ''http://localhost/national/2009/province/?page=1'')
              [[(''results'', Some 2)]]) \<and>
   (Some ''http://localhost/national/2009/province/?page=1'' \<noteq> None) = ((2::int) > (0 + 1) * 1)"
proof -
  have h1: "paging_params (ex_request [(''per_page'', ''1'')]) = Inr (0, 1)"
    by (simp add: eval_defs)
  have h2: "results_by_area ex_serialize ex_db (ex_request [(''per_page'', ''1'')])
       ''national'' ''2009'' ''province'' None
     = Inr (Envelope 2 (Some ''http://localhost/national/2009/province/?page=1'')
              [[(''results'', Some 2)]])"
    by (simp add: eval_defs)
  from next_link_iff [OF h1 h2] h1 h2 show ?thesis by simp
qed

subsection \<open>Empty collections\<close>

text \<open>
  C6. A collection request whose fetched list of rows is empty fails with 404
  \<open>Not Found\<close>, also when the request is well formed and the filter entity exists.
\<close>

theorem empty_collection_404:
  assumes "validate_event_type et = Inr et'" "validate_year y = Inr y'" "validate_area a = Inr a'"
    "filter_params req a' = Inr flt" "paging_params req = Inr (page, per_page)" "\<not> truthy area_id"
    "matching_rows db y' a' flt = Inr rows"
    "fetch (all_results_param req) page per_page rows = []"
  shows "results_by_area ser db req et y a area_id = Inl (ApiException 404 ''Not Found'')"
proof -
  have "results_by_area ser db req et y a area_id =
        collection ser db req et' y' a' flt page per_page (all_results_param req)"
    using assms(1-6) by (rule results_by_area_collection)
  also have "\<dots> = Inl (ApiException 404 ''Not Found'')"
    by (simp add: collection_def assms(7,8) and_then_Inr Let_def)
  finally show ?thesis .
qed

theorem empty_collection_404_witness:
  "matching_rows ex_db 2009 ''municipality'' (Some (''province'', ''WC'')) = Inr [] \<and>
   results_by_area ex_serialize ex_db (ex_request [(''province'', ''WC'')])
       ''national'' ''2009'' ''municipality'' None
     = Inl (ApiException 404 ''Not Found'')"
proof -
  have h1: "validate_event_type ''national'' = Inr ''national''" by (simp add: eval_defs)
  have h2: "validate_year ''2009'' = Inr 2009" by (simp add: eval_defs)
  have h3: "validate_area ''municipality'' = Inr ''municipality''" by (simp add: eval_defs)
  have h4: "filter_params (ex_request [(''province'', ''WC'')]) ''municipality''
              = Inr (Some (''province'', ''WC''))" by (simp add: eval_defs)
  have h5: "paging_params (ex_request [(''province'', ''WC'')]) = Inr (0, 50)" by (simp add: eval_defs)
  have h6: "\<not> truthy None" by (simp add: truthy_def)
  have h7: "matching_rows ex_db 2009 ''municipality'' (Some (''province'', ''WC'')) = Inr []"
    by (simp add: eval_defs)
  have h8: "fetch (all_results_param (ex_request [(''province'', ''WC'')])) 0 50 [] = []"
    by (simp add: eval_defs)
  from empty_collection_404 [OF h1 h2 h3 h4 h5 h6 h7 h8] h7 show ?thesis by simp
qed

subsection \<open>Filter parameters\<close>

text \<open>
  C4. The filter parameters are scanned from the finest area to the coarsest
  (\<^verbatim>\<open>voting_district\<close>, \<^verbatim>\<open>ward\<close>, \<^verbatim>\<open>municipality\<close>, \<^verbatim>\<open>province\<close>); the first one with a
  non-empty value is the only filter honoured. It is accepted exactly when its position
  in the order province, municipality, ward, voting district is strictly below the
  position of the requested area; otherwise the request fails with 422. \<open>spec_filter\<close>
  is this description; the loop of the view computes it.
\<close>

theorem filter_scan_accepts_coarser:
  assumes "validate_event_type et = Inr et'" "validate_year y = Inr y'" "validate_area a = Inr A"
  shows "filter_params req A = spec_filter req A \<and>
         (\<forall>e. spec_filter req A = Inl e \<longrightarrow> results_by_area ser db req et y a area_id = Inl e)"
proof -
  from assms(3) have "A \<in> set areas" by (rule validate_area_in)
  then have eq: "filter_params req A = spec_filter req A" by (rule filter_params_spec)
  with assms show ?thesis by (auto intro: results_by_area_filter_error)
qed

theorem filter_scan_accepts_coarser_witness:
  "validate_event_type ''national'' = Inr ''national'' \<and>
   validate_year ''2009'' = Inr 2009 \<and>
   validate_area ''Municipality'' = Inr ''municipality'' \<and>
   spec_filter (ex_request [(''province'', ''EC''), (''ward'', ''5'')]) ''municipality''
     = Inl (ApiException 422 ''The specified filter parameter cannot be used in this query.'') \<and>
   filter_params (ex_request [(''province'', ''EC''), (''ward'', ''5'')]) ''municipality''
     = Inl (ApiException 422 ''The specified filter parameter cannot be used in this query.'') \<and>
   results_by_area ex_serialize ex_db (ex_request [(''province'', ''EC''), (''ward'', ''5'')])
       ''national'' ''2009'' ''Municipality'' None
     = Inl (ApiException 422 ''The specified filter parameter cannot be used in this query.'')"
proof -
  have h1: "validate_event_type ''national'' = Inr ''national''" by (simp add: eval_defs)
  have h2: "validate_year ''2009'' = Inr 2009" by (simp add: eval_defs)
  have h3: "validate_area ''Municipality'' = Inr ''municipality''" by code_simp
  have h4: "spec_filter (ex_request [(''province'', ''EC''), (''ward'', ''5'')]) ''municipality''
     = Inl (ApiException 422 ''The specified filter parameter cannot be used in this query.'')"
    by (simp add: eval_defs)
  from filter_scan_accepts_coarser [OF h1 h2 h3, of "ex_request [(''province'', ''EC''), (''ward'', ''5'')]"
      ex_serialize ex_db None] h1 h2 h3 h4
  show ?thesis by simp
qed

subsection \<open>Year overview\<close>

text \<open>
  C7. For a valid event type and year, the response of the year overview holds a link
  for province, municipality and voting district, and holds the ward link exactly when
  the year is at least 2009.
\<close>

theorem year_overview_links:
  assumes "validate_event_type et = Inr et'" "validate_year y = Inr n"
    "results_overall ser db req et y = Inr out"
  shows "out ''province'' = Some (Link (url_root req @ et' @ ''/'' @ py_str n @ ''/province/'')) \<and>
         out ''municipality'' = Some (Link (url_root req @ et' @ ''/'' @ py_str n @ ''/municipality/'')) \<and>
         out ''voting_district'' = Some (Link (url_root req @ et' @ ''/'' @ py_str n @ ''/voting_district/'')) \<and>
         (out ''ward'' \<noteq> None) = (n \<ge> 2009) \<and>
         (n \<ge> 2009 \<longrightarrow> out ''ward'' = Some (Link (url_root req @ et' @ ''/'' @ py_str n @ ''/ward/'')))"
proof -
  from assms obtain res where
    "out = area_links (url_root req) et' n (Map.empty(''results'' \<mapsto> Results res))"
    by (rule results_overall_InrD)
  then show ?thesis by (simp add: area_links_apply)
qed

theorem year_overview_links_witness:
  "validate_event_type ''national'' = Inr ''national'' \<and>
   validate_year ''2004'' = Inr 2004 \<and>
   results_overall ex_serialize ex_db (ex_request []) ''national'' ''2004''
     = Inr (area_links ''http://localhost/'' ''national'' 2004 (Map.empty(''results'' \<mapsto> Results (Some (1::int))))) \<and>
   area_links ''http://localhost/'' ''national'' 2004 (Map.empty(''results'' \<mapsto> Results (Some (1::int)))) ''province''
     = Some (Link ''http://localhost/national/2004/province/'') \<and>
   area_links ''http://localhost/'' ''national'' 2004 (Map.empty(''results'' \<mapsto> Results (Some (1::int)))) ''ward''
     = None"
proof -
  have h1: "validate_event_type ''national'' = Inr ''national''" by (simp add: eval_defs)
  have h2: "validate_year ''2004'' = Inr 2004" by (simp add: eval_defs)
  have h3: "results_overall ex_serialize ex_db (ex_request []) ''national'' ''2004''
     = Inr (area_links ''http://localhost/'' ''national'' 2004 (Map.empty(''results'' \<mapsto> Results (Some (1::int)))))"
    by (simp add: results_overall_def h1 h2 and_then_Inr ex_serialize_def ex_db_def ex_request_def
        first_def getitem_def mk_row_def)
  have s: "py_str 2004 = ''2004''" by (simp add: py_str_values)
  from year_overview_links [OF h1 h2 h3] h1 h2 h3 s show ?thesis
    by (cases "area_links ''http://localhost/'' ''national'' 2004 (Map.empty(''results'' \<mapsto> Results (Some 1))) ''ward''")
       (simp_all add: ex_request_def)
qed

subsection \<open>The flag \<^verbatim>\<open>all_results\<close>\<close>



subsection \<open>Lookups by natural identifier\<close>

text \<open>
  C1. A request for a single entity is to return the row of the requested year with the
  requested identifier. The query of the view compares the identifier only: with the
  province \<^verbatim>\<open>EC\<close> stored for 1999 and for 2009, the request for 2009 serializes the row
  of 1999, the first one of the table; and for an identifier that no row has, the view
  passes \<^verbatim>\<open>None\<close> to the serializer and raises no 404 of its own.
\<close>

theorem single_entity_lookup_ignores_year:
  "results_by_area ser ex_db (ex_request []) ''national'' ''2009'' ''province'' (Some ''EC'')
     = and_then (ser (Some (mk_row 1 (StrId ''EC'') 1999 None)) ''national'') (\<lambda>out. Inr (Bare out)) \<and>
   results_by_area ex_serialize ex_db (ex_request []) ''national'' ''2009'' ''province'' (Some ''EC'')
     = Inr (Bare [(''results'', Some 1)]) \<and>
   results_by_area ser ex_db (ex_request []) ''national'' ''2009'' ''province'' (Some ''NC'')
     = and_then (ser None ''national'') (\<lambda>out. Inr (Bare out))"
  by (simp add: eval_defs)

text \<open>
  C2. The filter entity is to be the row of the requested year with the identifier given
  in the filter parameter. The lookup compares the identifier only: filtering the
  municipalities of 2009 by the province \<^verbatim>\<open>EC\<close> resolves the filter to the row of 1999,
  to which no municipality of 2009 belongs, and the request fails with 404 although the
  municipality \<^verbatim>\<open>BUF\<close> of 2009 belongs to the province \<^verbatim>\<open>EC\<close> of 2009.
\<close>

theorem filter_lookup_ignores_year:
  "filter_entity ex_db ''province'' ''EC'' = Inr (mk_row 1 (StrId ''EC'') 1999 None) \<and>
   matching_rows ex_db 2009 ''municipality'' (Some (''province'', ''EC'')) = Inr [] \<and>
   results_by_area ser ex_db (ex_request [(''province'', ''EC'')]) ''national'' ''2009'' ''municipality'' None
     = Inl (ApiException 404 ''Not Found'')"
  by (simp add: eval_defs)

subsection \<open>Paging parameters\<close>

text \<open>
  C10, as stated, fails: with \<^verbatim>\<open>per_page=0\<close> and two matching rows the paged request
  fetches no row and fails with 404; it carries no next link.
\<close>

theorem zero_per_page_counterexample:
  "paging_params (ex_request [(''per_page'', ''0'')]) = Inr (0, 0) \<and>
   matching_rows ex_db 2009 ''province'' None
     = Inr [mk_row 2 (StrId ''EC'') 2009 None, mk_row 3 (StrId ''WC'') 2009 None] \<and>
   results_by_area ex_serialize ex_db (ex_request [(''per_page'', ''0'')])
       ''national'' ''2009'' ''province'' None
     = Inl (ApiException 404 ''Not Found'')"
  by (simp add: eval_defs)

text \<open>
  C10, amended. The paging parameters are checked only for being integers: every pair
  of integers, zero and negative ones included, is accepted. With \<^verbatim>\<open>per_page=0\<close> and at
  least one matching row the condition \<open>count > (page + 1) * per_page\<close> holds on every page;
  a paged request then fails with 404 \<open>Not Found\<close>, and a request with \<^verbatim>\<open>all_results\<close> that
  returns an envelope carries the next link.
\<close>

theorem paging_accepts_any_integer:
  assumes "validate_event_type et = Inr et'" "validate_year y = Inr y'" "validate_area a = Inr a'"
    "filter_params req a' = Inr flt" "\<not> truthy area_id"
    "matching_rows db y' a' flt = Inr rows" "rows \<noteq> []"
    "args_get req ''page'' = Some (py_str n)" "args_get req ''per_page'' = Some (py_str 0)"
  shows "(\<forall>r i j. args_get r ''page'' = Some (py_str i) \<and> args_get r ''per_page'' = Some (py_str j)
            \<longrightarrow> paging_params r = Inr (i, j)) \<and>
         paging_params req = Inr (n, 0) \<and>
         int (length rows) > (n + 1) * 0 \<and>
         (\<not> all_results_param req \<longrightarrow>
            results_by_area ser db req et y a area_id = Inl (ApiException 404 ''Not Found'')) \<and>
         (all_results_param req \<longrightarrow>
            (\<forall>c nx rs. results_by_area ser db req et y a area_id = Inr (Envelope c nx rs)
               \<longrightarrow> nx = Some (next_link (url_root req) et' y' a' n)))"
proof -
  have pp: "paging_params req = Inr (n, 0)"
    using assms(8,9) by (rule paging_params_py_str)
  have eq: "results_by_area ser db req et y a area_id =
        collection ser db req et' y' a' flt n 0 (all_results_param req)"
    using assms(1-4) pp assms(5) by (rule results_by_area_collection)
  have paged: "results_by_area ser db req et y a area_id = Inl (ApiException 404 ''Not Found'')"
    if "\<not> all_results_param req"
    using that assms(6)
    by (simp add: eq collection_def and_then_Inr fetch_def limit_offset_def Let_def)
  have all: "nx = Some (next_link (url_root req) et' y' a' n)"
    if "results_by_area ser db req et y a area_id = Inr (Envelope c nx rs)" for c nx rs
  proof -
    from that eq have "collection ser db req et' y' a' flt n 0 (all_results_param req) = Inr (Envelope c nx rs)"
      by simp
    then obtain rows' where "matching_rows db y' a' flt = Inr rows'" "c = int (length rows')"
      "nx = (if c > (n + 1) * 0 then Some (next_link (url_root req) et' y' a' n) else None)"
      by (rule collection_envelopeD)
    with assms(6,7) show ?thesis by simp
  qed
  from assms(7) have "int (length rows) > (n + 1) * 0" by simp
  with pp paged all show ?thesis
    by (simp add: paging_params_py_str)
qed

theorem paging_accepts_any_integer_witness:
  "paging_params (ex_request [(''page'', ''3''), (''per_page'', ''0'')]) = Inr (3, 0) \<and>
   matching_rows ex_db 2009 ''province'' None
     = Inr [mk_row 2 (StrId ''EC'') 2009 None, mk_row 3 (StrId ''WC'') 2009 None] \<and>
   \<not> all_results_param (ex_request [(''page'', ''3''), (''per_page'', ''0'')]) \<and>
   results_by_area ex_serialize ex_db (ex_request [(''page'', ''3''), (''per_page'', ''0'')])
       ''national'' ''2009'' ''province'' None
     = Inl (ApiException 404 ''Not Found'')"
proof -
  let ?req = "ex_request [(''page'', ''3''), (''per_page'', ''0'')]"
  have h1: "validate_event_type ''national'' = Inr ''national''" by (simp add: eval_defs)
  have h2: "validate_year ''2009'' = Inr 2009" by (simp add: eval_defs)
  have h3: "validate_area ''province'' = Inr ''province''" by (simp add: eval_defs)
  have h4: "filter_params ?req ''province'' = Inr None" by (simp add: eval_defs)
  have h5: "\<not> truthy None" by (simp add: truthy_def)
  have h6: "matching_rows ex_db 2009 ''province'' None
     = Inr [mk_row 2 (StrId ''EC'') 2009 None, mk_row 3 (StrId ''WC'') 2009 None]"
    by (simp add: eval_defs)
  have h7: "[mk_row 2 (StrId ''EC'') 2009 None, mk_row 3 (StrId ''WC'') 2009 None] \<noteq> []" by simp
  have h8: "args_get ?req ''page'' = Some (py_str 3)" by (simp add: eval_defs)
  have h9: "args_get ?req ''per_page'' = Some (py_str 0)" by (simp add: eval_defs)
  have n: "\<not> all_results_param ?req" by (simp add: eval_defs)
  from paging_accepts_any_integer [OF h1 h2 h3 h4 h5 h6 h7 h8 h9, of ex_serialize] h6 n
  show ?thesis by simp
qed

subsection \<open>Following next links\<close>

text \<open>
  C3, as stated, fails: the next link carries only the page number. A request with
  \<^verbatim>\<open>per_page=1\<close> over two provinces answers with a next link to page 1; that link, followed,
  is a request with the default page size 50, whose page 1 is empty, and fails with 404.
\<close>

theorem next_link_not_followable_counterexample:
  "results_by_area ex_serialize ex_db (ex_request [(''per_page'', ''1'')])
       ''national'' ''2009'' ''province'' None
     = Inr (Envelope 2 (Some ''http://localhost/national/2009/province/?page=1'')
              [[(''results'', Some 2)]]) \<and>
   request_url (ex_request [(''page'', ''1'')], ''national'', ''2009'', ''province'')
     = ''http://localhost/national/2009/province/?page=1'' \<and>
   results_by_area ex_serialize ex_db (ex_request [(''page'', ''1'')])
       ''national'' ''2009'' ''province'' None
     = Inl (ApiException 404 ''Not Found'')"
  by (simp add: eval_defs request_url_def)

text \<open>
  C3, amended. The next link of a collection response is the URL of the request for the
  validated event type, year and area with the single query parameter \<^verbatim>\<open>page\<close>, one above
  the page of the request. When the request had a page not below zero and a page size
  of at least 50, and the serializer accepts every row, the request denoted by the link
  yields a collection response. Following next links repeatedly, from any request that
  yields one, ends after finitely many requests.
\<close>

theorem next_link_followed:
  assumes "results_by_area ser db req et y a area_id = Inr (Envelope cnt (Some link) results)"
  shows "\<exists>req' et' ys a'.
           link_target req et y a = Some (req', et', ys, a') \<and>
           request_url (req', et', ys, a') = link \<and>
           (\<forall>page per_page.
              paging_params req = Inr (page, per_page) \<and> 0 \<le> page \<and> 50 \<le> per_page \<and>
              (\<forall>r. \<exists>rec. ser (Some r) et' = Inr rec) \<longrightarrow>
              (\<exists>c n rs. results_by_area ser db req' et' ys a' None = Inr (Envelope c n rs))) \<and>
           (\<exists>k n. crawl k ser db (req, et, y, a) = Some n)"
proof -
  from assms obtain et' y' a' flt page per_page where
    e: "validate_event_type et = Inr et'" and yv: "validate_year y = Inr y'" and
    av: "validate_area a = Inr a'" and pg: "paging_params req = Inr (page, per_page)" and
    nt: "\<not> truthy area_id" and f: "filter_params req a' = Inr flt" and
    col: "collection ser db req et' y' a' flt page per_page (all_results_param req)
            = Inr (Envelope cnt (Some link) results)"
    by (rule results_by_area_envelopeD)
  from col obtain rows where
    m: "matching_rows db y' a' flt = Inr rows" and c: "cnt = int (length rows)" and
    l: "Some link = (if cnt > (page + 1) * per_page
                     then Some (next_link (url_root req) et' y' a' page) else None)"
    by (rule collection_envelopeD)
  from l have gt: "cnt > (page + 1) * per_page" and
    link: "link = next_link (url_root req) et' y' a' page"
    by (simp_all split: if_splits)
  from matching_rows_length_le [OF m] obtain table where t: "models db a' = Some table" and
    le: "length rows \<le> length (filter (\<lambda>r. year r = y') table)"
    by blast
  let ?N = "int (length (filter (\<lambda>r. year r = y') table))"
  from c le have cN: "cnt \<le> ?N" by simp
  note e' = validate_event_type_idem [OF e]
  note y'' = validate_year_py_str [OF yv]
  note a'' = validate_area_idem [OF av]
  let ?R = "\<lparr>url_root = url_root req, args = [(''page'', py_str (page + 1))]\<rparr>"
  have tgt: "link_target req et y a = Some (?R, et', py_str y', a')"
    by (simp add: link_target_def e yv av pg next_request_def)
  have url: "request_url (?R, et', py_str y', a') = link"
    by (simp add: request_url_def link next_link_def)
  have follow: "\<exists>c n rs. results_by_area ser db ?R et' (py_str y') a' None = Inr (Envelope c n rs)"
    if "paging_params req = Inr (p, pp)" "0 \<le> p" "50 \<le> pp"
       "\<forall>r. \<exists>rec. ser (Some r) et' = Inr rec" for p pp
  proof -
    from that(1) pg have pp: "p = page" "pp = per_page" by simp_all
    from that(2,3) pp have "(page + 1) * 50 \<le> (page + 1) * per_page"
      by (intro mult_left_mono) simp_all
    with gt cN have big: "(page + 1) * 50 < ?N" by simp
    from that(2) pp have "0 \<le> page + 1" by simp
    from page_only_nonempty [where ser = ser and root = "url_root req", OF e' y'' a'' t big this that(4)]
    show ?thesis .
  qed
  have "has_next (results_by_area ser db req et y a None)"
  proof -
    have "results_by_area ser db req et y a None
            = collection ser db req et' y' a' flt page per_page (all_results_param req)"
      by (rule results_by_area_collection [OF e yv av f pg]) (simp add: truthy_def)
    with col show ?thesis by (simp add: has_next_def)
  qed
  moreover obtain k where k: "nat (?N - (page + 1 + 1) * 50) < k" by blast
  from crawl_page_only [OF e' y'' a'' t k] obtain n where
    "crawl k ser db (?R, et', py_str y', a') = Some n" by blast
  ultimately have "crawl (Suc k) ser db (req, et, y, a) = Some (Suc n)"
    by (simp add: tgt)
  then have fin: "\<exists>k n. crawl k ser db (req, et, y, a) = Some n" by blast
  from tgt url follow fin show ?thesis by blast
qed

theorem next_link_followed_witness:
  "has_next (results_by_area ex_serialize ex_big (ex_request []) ''national'' ''2009'' ''ward'' None) \<and>
   paging_params (ex_request []) = Inr (0, 50) \<and>
   link_target (ex_request []) ''national'' ''2009'' ''ward''
     = Some (ex_request [(''page'', ''1'')], ''national'', ''2009'', ''ward'') \<and>
   (\<exists>c n rs. results_by_area ex_serialize ex_big (ex_request [(''page'', ''1'')])
                ''national'' ''2009'' ''ward'' None = Inr (Envelope c n rs)) \<and>
   (\<exists>k n. crawl k ex_serialize ex_big (ex_request [], ''national'', ''2009'', ''ward'') = Some n)"
proof -
  have h1: "validate_event_type ''national'' = Inr ''national''" by (simp add: eval_defs)
  have h2: "validate_year ''2009'' = Inr 2009" by (simp add: eval_defs)
  have h3: "validate_area ''ward'' = Inr ''ward''" by (simp add: eval_defs)
  have h4: "filter_params (ex_request []) ''ward'' = Inr None" by (simp add: eval_defs)
  have h5: "paging_params (ex_request []) = Inr (0, 50)" by (simp add: eval_defs)
  have h6: "\<not> truthy None" by (simp add: truthy_def)
  have h7: "\<not> all_results_param (ex_request [])" by (simp add: eval_defs)
  have ne: "fetch False 0 50 ex_wards \<noteq> []"
    using ex_wards_length by (intro fetch_first_page_nonempty) auto
  obtain rs where rs: "serialize_all ex_serialize ''national'' (fetch False 0 50 ex_wards) = Inr rs"
    "length rs = length (fetch False 0 50 ex_wards)"
    using serialize_all_total [of ex_serialize "''national''" "fetch False 0 50 ex_wards"]
      ex_serialize_total by blast
  with ne have "rs \<noteq> []" by auto
  with rs have r: "results_by_area ex_serialize ex_big (ex_request []) ''national'' ''2009'' ''ward'' None
      = Inr (Envelope 51 (Some (next_link (url_root (ex_request [])) ''national'' 2009 ''ward'' 0)) rs)"
    by (simp add: results_by_area_collection [OF h1 h2 h3 h4 h5 h6] collection_def
        ex_big_wards_2009 ex_wards_length and_then_Inr h7 Let_def)
  then have hn: "has_next (results_by_area ex_serialize ex_big (ex_request []) ''national'' ''2009'' ''ward'' None)"
    by (simp add: has_next_def)
  have lt: "link_target (ex_request []) ''national'' ''2009'' ''ward''
     = Some (ex_request [(''page'', ''1'')], ''national'', ''2009'', ''ward'')"
    by (simp add: link_target_def next_request_def eval_defs)
  from next_link_followed [OF r] lt h5 ex_serialize_total hn show ?thesis
    by auto
qed

subsection \<open>Contents of a collection response\<close>




end
